theory Spec2Isabelle
  imports Main
begin

section \<open>The AFK mover: data shared by the three revisions of the program\<close>

text \<open>
  The repository holds three revisions of one Go program, each a \<^verbatim>\<open>package main\<close>:
  \<^item> \<^verbatim>\<open>src/main.go\<close>: every idle client outside an ignored channel and outside the
    AFK channel is moved; a failed listing ends the process (\<^verbatim>\<open>log.Fatal\<close>);
  \<^item> \<^verbatim>\<open>src/unnamed/part_001\<close>: adds the slice \<^verbatim>\<open>soloClients\<close>, kept across cycles,
    the solo skip and the grace skip; a failed listing skips the cycle;
  \<^item> \<^verbatim>\<open>src/unnamed/part_002\<close>: the cycle is the function \<^verbatim>\<open>processClients\<close>; it has
    the map \<^verbatim>\<open>recentJoins\<close> and the configuration field \<^verbatim>\<open>AllowGracePeriod\<close>, a solo
    check without any memory, and its client loop is nested in a copy of itself.

  A cycle is one pass of the \<^verbatim>\<open>for\<close> loop of \<^verbatim>\<open>main\<close>. What the server answers during
  a cycle is the cycle's input; the moves the program commands and the value of its
  cross-cycle variable after the cycle are its output.
\<close>

text \<open>\<^verbatim>\<open>ts3.Channel\<close> and \<^verbatim>\<open>ts3.OnlineClient\<close>, the fields the program reads. Go's \<^verbatim>\<open>int\<close>
  is modelled by \<^typ>\<open>int\<close>: the cycle only compares these numbers (the one division,
  \<^verbatim>\<open>idleTime/1000\<close>, feeds a log line).\<close>

record Channel =
  ChanID :: int
  ChannelName :: string

record OnlineClient =
  ID :: int
  Nickname :: string
  ChannelID :: int

text \<open>\<^verbatim>\<open>Config\<close>. The field \<^verbatim>\<open>AllowGracePeriod\<close> exists in part_002 only; the cycles of
  main.go and part_001 never look at it.\<close>

record Config =
  UserName :: string
  Password :: string
  ServerId :: int
  Url :: string
  AfkChannelName :: string
  MaxIdleTimeMs :: int
  IgnoredChannels :: "string list"
  AllowGracePeriod :: bool

text \<open>The answer to \<^verbatim>\<open>clientinfo clid=<id>\<close>, as far as the program tells answers apart:
  \<^verbatim>\<open>Exec\<close> returned an error; the first line of the answer has no match of
  \<^verbatim>\<open>client_idle_time=(\d+)\<close>; the digits matched are too many for \<^verbatim>\<open>strconv.Atoi\<close>;
  or the idle time in milliseconds. A successful \<^verbatim>\<open>Exec\<close> of \<^verbatim>\<open>clientinfo\<close> carries a
  first line (\<^verbatim>\<open>exec[0]\<close>).\<close>

datatype idle_reply = ExecError | IdleTimeMissing | IdleTimeOverflow | IdleTime int

text \<open>What the server answers during one cycle: \<^verbatim>\<open>ChannelList()\<close> and \<^verbatim>\<open>ClientList()\<close>
  (\<open>None\<close> is a returned error), \<^verbatim>\<open>clientinfo\<close> by client id, and the reading of the
  clock that \<^verbatim>\<open>time.Since\<close> takes, in nanoseconds. Within one cycle a client asked
  again answers the same, and the clock reads the same. The answer to \<^verbatim>\<open>clientmove\<close> is
  only logged and is left out.\<close>

record Server =
  ChannelList :: "Channel list option"
  ClientList :: "OnlineClient list option"
  clientinfo :: "int \<Rightarrow> idle_reply"
  clock :: int

text \<open>The branch one evaluation of a client ends in. Each has its own log line in the
  source; \<open>MoveToAfk\<close> is the branch that sends \<^verbatim>\<open>clientmove clid=<id> cid=<afk>\<close>,
  \<open>NotIdle\<close> the silent fall-through of \<^verbatim>\<open>if idleTime > config.MaxIdleTimeMs\<close>.\<close>

datatype decision =
    RecentJoinGrace
  | ExecFailed
  | IdleTimeNotFound
  | AtoiFailed
  | NotIdle
  | InAllowedChannel
  | AlreadyInAfk
  | SoloInChannel
  | InGracePeriod
  | MoveToAfk

text \<open>How a cycle ends: the process is terminated (\<^verbatim>\<open>Fatal\<close>); the cycle is abandoned
  after an error log and a sleep of so many seconds; or the client loop ran, with the
  AFK channel id it used, the evaluations it made in order (client id and branch) and
  the cross-cycle variable after it.\<close>

datatype 's cycle =
    Fatal
  | Skipped nat 's
  | Done int "(int \<times> decision) list" 's

text \<open>The \<^verbatim>\<open>clientmove\<close> commands of a cycle, in the order sent: client id and target
  channel id.\<close>

fun moves :: "'s cycle \<Rightarrow> (int \<times> int) list" where
  "moves Fatal = []"
| "moves (Skipped n st) = []"
| "moves (Done afk tr st) = map (\<lambda>p. (fst p, afk)) (filter (\<lambda>p. snd p = MoveToAfk) tr)"

text \<open>The evaluations a cycle made, and the cross-cycle variable it leaves to the next
  cycle (none when the process is gone).\<close>

fun evaluations :: "'s cycle \<Rightarrow> (int \<times> decision) list" where
  "evaluations Fatal = []"
| "evaluations (Skipped n st) = []"
| "evaluations (Done afk tr st) = tr"

fun stateAfter :: "'s cycle \<Rightarrow> 's option" where
  "stateAfter Fatal = None"
| "stateAfter (Skipped n st) = Some st"
| "stateAfter (Done afk tr st) = Some st"

text \<open>The \<^verbatim>\<open>for\<close> loop of \<^verbatim>\<open>main\<close>, run over the answers of the first cycles: the
  process is gone once a cycle is fatal, otherwise the next cycle starts from the
  variable the last one left.\<close>

datatype 's proc = Terminated | Running 's

fun forever :: "('srv \<Rightarrow> 's \<Rightarrow> 's cycle) \<Rightarrow> 'srv list \<Rightarrow> 's \<Rightarrow> 's proc" where
  "forever body [] st = Running st"
| "forever body (srv # rest) st =
     (case body srv st of
        Fatal \<Rightarrow> Terminated
      | Skipped n st' \<Rightarrow> forever body rest st'
      | Done afk tr st' \<Rightarrow> forever body rest st')"

subsection \<open>The channel loop (the same in the three revisions)\<close>

text \<open>\<^verbatim>\<open>for _, channel := range channels\<close>: \<^verbatim>\<open>afkChannelId\<close> is overwritten by every
  channel of the AFK name, and the channel's id is appended to \<^verbatim>\<open>allowedIdleChannels\<close>
  once for every entry of \<^verbatim>\<open>config.IgnoredChannels\<close> equal to its name.\<close>

fun scanChannels :: "Config \<Rightarrow> Channel list \<Rightarrow> int \<times> int list \<Rightarrow> int \<times> int list" where
  "scanChannels config [] acc = acc"
| "scanChannels config (channel # channels) (afkChannelId, allowedIdleChannels) =
     scanChannels config channels
       (if ChannelName channel = AfkChannelName config then ChanID channel else afkChannelId,
        allowedIdleChannels @
          map (\<lambda>ignoredChannel. ChanID channel)
            (filter (\<lambda>ignoredChannel. ChannelName channel = ignoredChannel)
               (IgnoredChannels config)))"

text \<open>\<^verbatim>\<open>contains\<close> of main.go and \<^verbatim>\<open>isChannelIgnored\<close> of part_001 and part_002.\<close>

fun contains :: "int list \<Rightarrow> int \<Rightarrow> bool" where
  "contains [] i = False"
| "contains (channel # channels) i = (if channel = i then True else contains channels i)"

fun isChannelIgnored :: "int list \<Rightarrow> int \<Rightarrow> bool" where
  "isChannelIgnored [] i = False"
| "isChannelIgnored (channel # channels) i =
     (if channel = i then True else isChannelIgnored channels i)"

section \<open>main.go\<close>

text \<open>The body of \<^verbatim>\<open>for _, client := range clients\<close>.\<close>

definition main_go_client :: "Config \<Rightarrow> int \<Rightarrow> int list \<Rightarrow> Server \<Rightarrow> OnlineClient \<Rightarrow> decision" where
  "main_go_client config afkChannelId allowedIdleChannels srv client =
     (case clientinfo srv (ID client) of
        ExecError \<Rightarrow> ExecFailed
      | IdleTimeMissing \<Rightarrow> IdleTimeNotFound
      | IdleTimeOverflow \<Rightarrow> AtoiFailed
      | IdleTime idleTime \<Rightarrow>
          if idleTime > MaxIdleTimeMs config then
            if contains allowedIdleChannels (ChannelID client) then InAllowedChannel
            else if ChannelID client = afkChannelId then AlreadyInAfk
            else MoveToAfk
          else NotIdle)"

text \<open>One pass of the loop of \<^verbatim>\<open>main\<close>. Both listings are fatal when they fail; the
  program keeps nothing from one cycle to the next.\<close>

definition main_go_cycle :: "Config \<Rightarrow> Server \<Rightarrow> unit \<Rightarrow> unit cycle" where
  "main_go_cycle config srv st =
     (case ChannelList srv of
        None \<Rightarrow> Fatal
      | Some channels \<Rightarrow>
          (case scanChannels config channels (0, []) of
             (afkChannelId, allowedIdleChannels) \<Rightarrow>
               if afkChannelId = 0 then Fatal
               else
                 (case ClientList srv of
                    None \<Rightarrow> Fatal
                  | Some clients \<Rightarrow>
                      Done afkChannelId
                        (map (\<lambda>client.
                                (ID client,
                                 main_go_client config afkChannelId allowedIdleChannels srv client))
                           clients)
                        st)))"

section \<open>part_001: the slice soloClients\<close>

text \<open>\<^verbatim>\<open>for i, v := range soloClients\<close>: the first entry equal to the client's id is cut
  out of the slice and the search stops; the flag says whether one was found.\<close>

fun removeFirst :: "int \<Rightarrow> int list \<Rightarrow> int list \<times> bool" where
  "removeFirst x [] = ([], False)"
| "removeFirst x (v # vs) =
     (if v = x then (vs, True)
      else (case removeFirst x vs of (vs', found) \<Rightarrow> (v # vs', found)))"

text \<open>\<^verbatim>\<open>for _, c2 := range clients\<close> of part_001, on \<^verbatim>\<open>(isSolo, isGracePeriod, soloClients)\<close>.
  At the first client of the same channel with another id the loop ends: \<^verbatim>\<open>isSolo\<close> is
  cleared and the client's id is searched in \<^verbatim>\<open>soloClients\<close>. Every client passed before
  that sets \<^verbatim>\<open>isSolo\<close> and appends the id of \<^verbatim>\<open>c\<close> to \<^verbatim>\<open>soloClients\<close>.\<close>

fun soloScan :: "OnlineClient \<Rightarrow> OnlineClient list \<Rightarrow> bool \<times> bool \<times> int list \<Rightarrow> bool \<times> bool \<times> int list" where
  "soloScan c [] acc = acc"
| "soloScan c (c2 # rest) (isSolo, isGracePeriod, soloClients) =
     (if ChannelID c2 = ChannelID c \<and> ID c2 \<noteq> ID c then
        (case removeFirst (ID c) soloClients of
           (soloClients', found) \<Rightarrow>
             (False, if found then True else isGracePeriod, soloClients'))
      else soloScan c rest (True, isGracePeriod, soloClients @ [ID c]))"

text \<open>The body of \<^verbatim>\<open>for _, c := range clients\<close>: the branch taken and \<^verbatim>\<open>soloClients\<close>
  after it.\<close>

definition part_001_client ::
  "Config \<Rightarrow> int \<Rightarrow> int list \<Rightarrow> Server \<Rightarrow> OnlineClient list \<Rightarrow> OnlineClient \<Rightarrow> int list
     \<Rightarrow> decision \<times> int list" where
  "part_001_client config afkChannelId allowedIdleChannels srv clients c soloClients =
     (case clientinfo srv (ID c) of
        ExecError \<Rightarrow> (ExecFailed, soloClients)
      | IdleTimeMissing \<Rightarrow> (IdleTimeNotFound, soloClients)
      | IdleTimeOverflow \<Rightarrow> (AtoiFailed, soloClients)
      | IdleTime idleTime \<Rightarrow>
          if idleTime > MaxIdleTimeMs config then
            if isChannelIgnored allowedIdleChannels (ChannelID c) then
              (InAllowedChannel, soloClients)
            else if ChannelID c = afkChannelId then (AlreadyInAfk, soloClients)
            else
              (case soloScan c clients (False, False, soloClients) of
                 (isSolo, isGracePeriod, soloClients') \<Rightarrow>
                   if isSolo then (SoloInChannel, soloClients')
                   else if isGracePeriod then (InGracePeriod, soloClients')
                   else (MoveToAfk, soloClients'))
          else (NotIdle, soloClients))"

fun part_001_clients ::
  "Config \<Rightarrow> int \<Rightarrow> int list \<Rightarrow> Server \<Rightarrow> OnlineClient list \<Rightarrow> OnlineClient list \<Rightarrow> int list
     \<Rightarrow> (int \<times> decision) list \<times> int list" where
  "part_001_clients config afkChannelId allowedIdleChannels srv clients [] soloClients =
     ([], soloClients)"
| "part_001_clients config afkChannelId allowedIdleChannels srv clients (c # rest) soloClients =
     (case part_001_client config afkChannelId allowedIdleChannels srv clients c soloClients of
        (d, soloClients') \<Rightarrow>
          (case part_001_clients config afkChannelId allowedIdleChannels srv clients rest
                  soloClients' of
             (tr, soloClients'') \<Rightarrow> ((ID c, d) # tr, soloClients'')))"

text \<open>One pass of the loop of \<^verbatim>\<open>main\<close>. A failed listing is logged, followed by
  \<^verbatim>\<open>time.Sleep(5 * time.Second)\<close> and \<^verbatim>\<open>continue\<close>.\<close>

definition part_001_cycle :: "Config \<Rightarrow> Server \<Rightarrow> int list \<Rightarrow> int list cycle" where
  "part_001_cycle config srv soloClients =
     (case ChannelList srv of
        None \<Rightarrow> Skipped 5 soloClients
      | Some channels \<Rightarrow>
          (case scanChannels config channels (0, []) of
             (afkChannelId, allowedIdleChannels) \<Rightarrow>
               if afkChannelId = 0 then Fatal
               else
                 (case ClientList srv of
                    None \<Rightarrow> Skipped 5 soloClients
                  | Some clients \<Rightarrow>
                      (case part_001_clients config afkChannelId allowedIdleChannels srv
                              clients clients soloClients of
                         (tr, soloClients') \<Rightarrow> Done afkChannelId tr soloClients'))))"

section \<open>part_002: processClients\<close>

text \<open>\<^verbatim>\<open>if joinTime, ok := recentJoins[c.ChannelID]; ok\<close> with
  \<^verbatim>\<open>time.Since(joinTime) <= 10*time.Second\<close>, in nanoseconds.\<close>

definition recentJoin :: "(int \<rightharpoonup> int) \<Rightarrow> int \<Rightarrow> int \<Rightarrow> bool" where
  "recentJoin recentJoins now channelID =
     (case recentJoins channelID of
        None \<Rightarrow> False
      | Some joinTime \<Rightarrow> now - joinTime \<le> 10 * 1000000000)"

text \<open>\<^verbatim>\<open>isSolo := true\<close> and the loop over \<^verbatim>\<open>c2\<close> that clears it.\<close>

fun isSolo :: "OnlineClient \<Rightarrow> OnlineClient list \<Rightarrow> bool" where
  "isSolo c [] = True"
| "isSolo c (c2 # rest) =
     (if ChannelID c2 = ChannelID c \<and> ID c2 \<noteq> ID c then False else isSolo c rest)"

text \<open>The body of the inner \<^verbatim>\<open>for _, c := range clients\<close>.\<close>

definition processClients_inner ::
  "Config \<Rightarrow> int \<Rightarrow> int list \<Rightarrow> Server \<Rightarrow> (int \<rightharpoonup> int) \<Rightarrow> OnlineClient list \<Rightarrow> OnlineClient
     \<Rightarrow> decision" where
  "processClients_inner config afkChannelId allowedIdleChannels srv recentJoins clients c =
     (if recentJoin recentJoins (clock srv) (ChannelID c) then RecentJoinGrace
      else
        (case clientinfo srv (ID c) of
           ExecError \<Rightarrow> ExecFailed
         | IdleTimeMissing \<Rightarrow> IdleTimeNotFound
         | IdleTimeOverflow \<Rightarrow> AtoiFailed
         | IdleTime idleTime \<Rightarrow>
             if idleTime > MaxIdleTimeMs config then
               if isChannelIgnored allowedIdleChannels (ChannelID c) then InAllowedChannel
               else if ChannelID c = afkChannelId then AlreadyInAfk
               else if isSolo c clients then SoloInChannel
               else MoveToAfk
             else NotIdle))"

text \<open>The body of the outer \<^verbatim>\<open>for _, c := range clients\<close>: the same three early exits
  (without \<^verbatim>\<open>strconv.Atoi\<close>), then the whole inner loop.\<close>

definition processClients_outer ::
  "Config \<Rightarrow> int \<Rightarrow> int list \<Rightarrow> Server \<Rightarrow> (int \<rightharpoonup> int) \<Rightarrow> OnlineClient list \<Rightarrow> OnlineClient
     \<Rightarrow> (int \<times> decision) list" where
  "processClients_outer config afkChannelId allowedIdleChannels srv recentJoins clients c =
     (if recentJoin recentJoins (clock srv) (ChannelID c) then [(ID c, RecentJoinGrace)]
      else
        (case clientinfo srv (ID c) of
           ExecError \<Rightarrow> [(ID c, ExecFailed)]
         | IdleTimeMissing \<Rightarrow> [(ID c, IdleTimeNotFound)]
         | IdleTimeOverflow \<Rightarrow>
             map (\<lambda>c'. (ID c',
                    processClients_inner config afkChannelId allowedIdleChannels srv
                      recentJoins clients c'))
               clients
         | IdleTime idleTime \<Rightarrow>
             map (\<lambda>c'. (ID c',
                    processClients_inner config afkChannelId allowedIdleChannels srv
                      recentJoins clients c'))
               clients))"

text \<open>\<^verbatim>\<open>processClients\<close>, with the global \<^verbatim>\<open>recentJoins\<close> passed in and out. A failed
  listing is logged, followed by \<^verbatim>\<open>time.Sleep(5 * time.Second)\<close> and \<^verbatim>\<open>return\<close>.\<close>

definition processClients :: "Config \<Rightarrow> Server \<Rightarrow> (int \<rightharpoonup> int) \<Rightarrow> (int \<rightharpoonup> int) cycle" where
  "processClients config srv recentJoins =
     (case ChannelList srv of
        None \<Rightarrow> Skipped 5 recentJoins
      | Some channels \<Rightarrow>
          (case scanChannels config channels (0, []) of
             (afkChannelId, allowedIdleChannels) \<Rightarrow>
               if afkChannelId = 0 then Fatal
               else
                 (case ClientList srv of
                    None \<Rightarrow> Skipped 5 recentJoins
                  | Some clients \<Rightarrow>
                      Done afkChannelId
                        (concat
                           (map (processClients_outer config afkChannelId allowedIdleChannels
                                   srv recentJoins clients)
                              clients))
                        recentJoins)))"

section \<open>Concrete snapshots\<close>

text \<open>The scenario of the specification: channels Lobby (1), AFK (2) and Quiet (3), the
  channel Quiet ignored, a threshold of 60000 ms; client 10 (idle 120000 ms) and client 11
  (idle 500 ms) in Lobby, client 12 (idle 900000 ms) in Quiet.\<close>

definition scenario_config :: Config where
  "scenario_config =
     \<lparr>UserName = ''serveradmin'', Password = ''secret'', ServerId = 1, Url = ''ts3:10011'',
      AfkChannelName = ''AFK'', MaxIdleTimeMs = 60000, IgnoredChannels = [''Quiet''],
      AllowGracePeriod = True\<rparr>"

definition scenario_channels :: "Channel list" where
  "scenario_channels =
     [\<lparr>ChanID = 1, ChannelName = ''Lobby''\<rparr>,
      \<lparr>ChanID = 2, ChannelName = ''AFK''\<rparr>,
      \<lparr>ChanID = 3, ChannelName = ''Quiet''\<rparr>]"

definition scenario_clients :: "OnlineClient list" where
  "scenario_clients =
     [\<lparr>ID = 10, Nickname = ''A'', ChannelID = 1\<rparr>,
      \<lparr>ID = 11, Nickname = ''B'', ChannelID = 1\<rparr>,
      \<lparr>ID = 12, Nickname = ''C'', ChannelID = 3\<rparr>]"

definition scenario_idle :: "int \<Rightarrow> idle_reply" where
  "scenario_idle i =
     (if i = 10 then IdleTime 120000
      else if i = 11 then IdleTime 500
      else if i = 12 then IdleTime 900000
      else ExecError)"

definition scenario_server :: Server where
  "scenario_server =
     \<lparr>ChannelList = Some scenario_channels, ClientList = Some scenario_clients,
      clientinfo = scenario_idle, clock = 0\<rparr>"

text \<open>A listing without the AFK channel.\<close>

definition no_afk_server :: Server where
  "no_afk_server =
     \<lparr>ChannelList = Some [\<lparr>ChanID = 1, ChannelName = ''Lobby''\<rparr>,
                           \<lparr>ChanID = 3, ChannelName = ''Quiet''\<rparr>],
      ClientList = Some scenario_clients, clientinfo = scenario_idle, clock = 0\<rparr>"

text \<open>Two consecutive cycles: client 10 idle and alone in Lobby while client 11 sits in
  Quiet, then client 11 has joined Lobby. Client 10 is idle beyond the threshold in both,
  client 11 in neither.\<close>

definition alone_clients :: "OnlineClient list" where
  "alone_clients =
     [\<lparr>ID = 10, Nickname = ''A'', ChannelID = 1\<rparr>,
      \<lparr>ID = 11, Nickname = ''B'', ChannelID = 3\<rparr>]"

definition alone_server :: Server where
  "alone_server =
     \<lparr>ChannelList = Some scenario_channels, ClientList = Some alone_clients,
      clientinfo = scenario_idle, clock = 0\<rparr>"

definition joined_clients :: "OnlineClient list" where
  "joined_clients =
     [\<lparr>ID = 10, Nickname = ''A'', ChannelID = 1\<rparr>,
      \<lparr>ID = 11, Nickname = ''B'', ChannelID = 1\<rparr>]"

definition joined_server :: Server where
  "joined_server =
     \<lparr>ChannelList = Some scenario_channels, ClientList = Some joined_clients,
      clientinfo = scenario_idle, clock = 10000000000\<rparr>"

text \<open>Two idle clients in one channel.\<close>

definition both_idle_clients :: "OnlineClient list" where
  "both_idle_clients =
     [\<lparr>ID = 10, Nickname = ''A'', ChannelID = 1\<rparr>,
      \<lparr>ID = 12, Nickname = ''C'', ChannelID = 1\<rparr>]"

definition both_idle_server :: Server where
  "both_idle_server =
     \<lparr>ChannelList = Some scenario_channels, ClientList = Some both_idle_clients,
      clientinfo = scenario_idle, clock = 0\<rparr>"

text \<open>The scenario after client 10 has been moved: it now sits in the AFK channel.\<close>

definition moved_clients :: "OnlineClient list" where
  "moved_clients =
     [\<lparr>ID = 10, Nickname = ''A'', ChannelID = 2\<rparr>,
      \<lparr>ID = 11, Nickname = ''B'', ChannelID = 1\<rparr>,
      \<lparr>ID = 12, Nickname = ''C'', ChannelID = 3\<rparr>]"

definition moved_server :: Server where
  "moved_server =
     \<lparr>ChannelList = Some scenario_channels, ClientList = Some moved_clients,
      clientinfo = scenario_idle, clock = 0\<rparr>"

lemmas scenario_defs =
  scenario_config_def scenario_channels_def scenario_clients_def scenario_idle_def
  scenario_server_def no_afk_server_def alone_clients_def alone_server_def
  joined_clients_def joined_server_def both_idle_clients_def both_idle_server_def
  moved_clients_def moved_server_def

section \<open>The main loop and the channel loop\<close>

lemma forever_append:
  "forever body (xs @ ys) st =
     (case forever body xs st of Terminated \<Rightarrow> Terminated | Running st' \<Rightarrow> forever body ys st')"
  by (induction xs arbitrary: st) (auto split: cycle.splits)

lemma forever_fatal:
  assumes "\<And>st. body srv st = Fatal"
  shows "forever body (before @ srv # rest) st = Terminated"
  using assms by (simp add: forever_append split: proc.splits)

lemma scanChannels_no_afk:
  "\<forall>ch \<in> set channels. ChannelName ch \<noteq> AfkChannelName config \<Longrightarrow>
     fst (scanChannels config channels (afk, allowed)) = afk"
  by (induction channels arbitrary: afk allowed) auto

lemma scanChannels_AllowGracePeriod:
  "scanChannels (config\<lparr>AllowGracePeriod := b\<rparr>) channels acc = scanChannels config channels acc"
proof (induction channels arbitrary: acc)
  case Nil
  show ?case by simp
next
  case (Cons ch channels)
  then show ?case by (cases acc) simp
qed

lemma set_allowedIdleChannels:
  "set (snd (scanChannels config channels (afk, allowed))) =
     set allowed \<union> ChanID ` {ch \<in> set channels. ChannelName ch \<in> set (IgnoredChannels config)}"
  by (induction channels arbitrary: afk allowed) auto

lemma isChannelIgnored_iff: "isChannelIgnored channels i \<longleftrightarrow> i \<in> set channels"
  by (induction channels) auto

lemma contains_iff: "contains channels i \<longleftrightarrow> i \<in> set channels"
  by (induction channels) auto

lemma set_moves_Done:
  "(i, t) \<in> set (moves (Done afk tr st)) \<longleftrightarrow> t = afk \<and> (i, MoveToAfk) \<in> set tr"
  by force

section \<open>The client loops\<close>

lemma same_ID_same_client:
  "distinct (map ID clients) \<Longrightarrow> c \<in> set clients \<Longrightarrow> c' \<in> set clients \<Longrightarrow> ID c' = ID c \<Longrightarrow> c' = c"
  by (metis distinct_map inj_on_def)

lemma not_ignored_iff:
  "isChannelIgnored (snd (scanChannels config channels (0, []))) i \<longleftrightarrow>
     (\<exists>ch \<in> set channels. ChanID ch = i \<and> ChannelName ch \<in> set (IgnoredChannels config))"
  by (auto simp: isChannelIgnored_iff set_allowedIdleChannels)

lemma main_go_cycle_Done:
  assumes "ChannelList srv = Some channels" and "ClientList srv = Some clients"
    and "scanChannels config channels (0, []) = (afk, allowed)" and "afk \<noteq> 0"
  shows "main_go_cycle config srv u =
     Done afk (map (\<lambda>client. (ID client, main_go_client config afk allowed srv client)) clients) u"
  using assms by (simp add: main_go_cycle_def)

lemma part_001_cycle_Done:
  assumes "ChannelList srv = Some channels" and "ClientList srv = Some clients"
    and "scanChannels config channels (0, []) = (afk, allowed)" and "afk \<noteq> 0"
  shows "part_001_cycle config srv soloClients =
     Done afk (fst (part_001_clients config afk allowed srv clients clients soloClients))
       (snd (part_001_clients config afk allowed srv clients clients soloClients))"
  using assms by (simp add: part_001_cycle_def split: prod.splits)

lemma processClients_Done:
  assumes "ChannelList srv = Some channels" and "ClientList srv = Some clients"
    and "scanChannels config channels (0, []) = (afk, allowed)" and "afk \<noteq> 0"
  shows "processClients config srv recentJoins =
     Done afk (concat (map (processClients_outer config afk allowed srv recentJoins clients) clients))
       recentJoins"
  using assms by (simp add: processClients_def)

lemma cycle_afk_0:
  assumes "ChannelList srv = Some channels"
    and "scanChannels config channels (0, []) = (0, allowed)"
  shows "main_go_cycle config srv u = Fatal" and "part_001_cycle config srv soloClients = Fatal"
    and "processClients config srv recentJoins = Fatal"
  using assms by (simp_all add: main_go_cycle_def part_001_cycle_def processClients_def)

subsection \<open>part_001: the solo scan and the slice\<close>

lemma set_removeFirst_other:
  "i \<noteq> x \<Longrightarrow> i \<in> set (fst (removeFirst x xs)) \<longleftrightarrow> i \<in> set xs"
  by (induction xs) (auto split: prod.splits)

lemma removeFirst_found: "snd (removeFirst x xs) \<longleftrightarrow> x \<in> set xs"
  by (induction xs) (auto split: prod.splits)

lemma soloScan_hit:
  "ChannelID c2 = ChannelID c \<Longrightarrow> ID c2 \<noteq> ID c \<Longrightarrow>
     soloScan c (c2 # rest) (a, g, soloClients) =
       (False, snd (removeFirst (ID c) soloClients) \<or> g, fst (removeFirst (ID c) soloClients))"
  by (simp split: prod.splits)

lemma soloScan_pass:
  "ChannelID c2 = ChannelID c \<longrightarrow> ID c2 = ID c \<Longrightarrow>
     soloScan c (c2 # rest) (a, g, soloClients) =
       soloScan c rest (True, g, soloClients @ [ID c])"
  by auto

lemma soloScan_other:
  "i \<noteq> ID c \<Longrightarrow>
     i \<in> set (snd (snd (soloScan c xs (a, g, soloClients)))) \<longleftrightarrow> i \<in> set soloClients"
proof (induction xs arbitrary: a g soloClients)
  case Nil
  show ?case by simp
next
  case (Cons c2 xs)
  show ?case
  proof (cases "ChannelID c2 = ChannelID c \<and> ID c2 \<noteq> ID c")
    case True
    with Cons.prems show ?thesis
      by (simp add: soloScan_hit set_removeFirst_other del: soloScan.simps)
  next
    case False
    then have "ChannelID c2 = ChannelID c \<longrightarrow> ID c2 = ID c" by blast
    with Cons show ?thesis
      by (simp add: soloScan_pass del: soloScan.simps)
  qed
qed

lemma soloScan_alone:
  "\<forall>c2 \<in> set xs. ChannelID c2 = ChannelID c \<longrightarrow> ID c2 = ID c \<Longrightarrow>
     soloScan c xs (a, g, soloClients) =
       (if xs = [] then a else True, g, soloClients @ replicate (length xs) (ID c))"
proof (induction xs arbitrary: a soloClients)
  case Nil
  show ?case by simp
next
  case (Cons c2 xs)
  then show ?case by (auto simp: replicate_app_Cons_same)
qed

lemma soloScan_recorded:
  "\<exists>c2 \<in> set xs. ChannelID c2 = ChannelID c \<and> ID c2 \<noteq> ID c \<Longrightarrow> ID c \<in> set soloClients \<Longrightarrow>
     fst (soloScan c xs (a, g, soloClients)) = False
     \<and> fst (snd (soloScan c xs (a, g, soloClients))) = True"
proof (induction xs arbitrary: a soloClients)
  case Nil
  then show ?case by simp
next
  case (Cons c2 xs)
  show ?case
  proof (cases "ChannelID c2 = ChannelID c \<and> ID c2 \<noteq> ID c")
    case True
    with Cons.prems(2) show ?thesis
      by (simp add: soloScan_hit removeFirst_found del: soloScan.simps)
  next
    case False
    then have pass: "ChannelID c2 = ChannelID c \<longrightarrow> ID c2 = ID c" by blast
    from False Cons.prems have "\<exists>c2 \<in> set xs. ChannelID c2 = ChannelID c \<and> ID c2 \<noteq> ID c"
      and "ID c \<in> set (soloClients @ [ID c])"
      by auto
    from Cons.IH [OF this] pass show ?thesis
      by (simp add: soloScan_pass del: soloScan.simps)
  qed
qed

lemma part_001_client_scan:
  assumes "clientinfo srv (ID c) = IdleTime t" and "t > MaxIdleTimeMs config"
    and "\<not> isChannelIgnored allowed (ChannelID c)" and "ChannelID c \<noteq> afk"
  shows "part_001_client config afk allowed srv clients c soloClients =
     (if fst (soloScan c clients (False, False, soloClients)) then SoloInChannel
      else if fst (snd (soloScan c clients (False, False, soloClients))) then InGracePeriod
      else MoveToAfk,
      snd (snd (soloScan c clients (False, False, soloClients))))"
  using assms by (simp add: part_001_client_def split: prod.splits)

lemma part_001_client_other:
  assumes "i \<noteq> ID c"
  shows "i \<in> set (snd (part_001_client config afk allowed srv clients c soloClients))
     \<longleftrightarrow> i \<in> set soloClients"
proof -
  obtain a g s where scan: "soloScan c clients (False, False, soloClients) = (a, g, s)"
    by (cases "soloScan c clients (False, False, soloClients)") auto
  have "i \<in> set s \<longleftrightarrow> i \<in> set soloClients"
    using soloScan_other [OF assms, of clients False False soloClients] scan by simp
  then show ?thesis
    by (simp add: part_001_client_def scan split: idle_reply.splits)
qed

lemma part_001_client_afk:
  "ChannelID c = afk \<Longrightarrow>
     fst (part_001_client config afk allowed srv clients c soloClients) \<noteq> MoveToAfk"
  by (simp add: part_001_client_def split: idle_reply.splits)

lemma part_001_clients_Cons:
  "part_001_clients config afk allowed srv clients (c # rest) soloClients =
     ((ID c, fst (part_001_client config afk allowed srv clients c soloClients)) #
        fst (part_001_clients config afk allowed srv clients rest
               (snd (part_001_client config afk allowed srv clients c soloClients))),
      snd (part_001_clients config afk allowed srv clients rest
             (snd (part_001_client config afk allowed srv clients c soloClients))))"
  by (simp split: prod.splits)

lemma part_001_clients_ids:
  "map fst (fst (part_001_clients config afk allowed srv clients rest soloClients)) = map ID rest"
  by (induction rest arbitrary: soloClients)
     (simp_all add: part_001_clients_Cons del: part_001_clients.simps(2))

lemma part_001_clients_other:
  "i \<notin> ID ` set rest \<Longrightarrow>
     i \<in> set (snd (part_001_clients config afk allowed srv clients rest soloClients))
       \<longleftrightarrow> i \<in> set soloClients"
  by (induction rest arbitrary: soloClients)
     (simp_all add: part_001_clients_Cons part_001_client_other del: part_001_clients.simps(2))

lemma part_001_clients_entry:
  "(i, d) \<in> set (fst (part_001_clients config afk allowed srv clients rest soloClients)) \<Longrightarrow>
     \<exists>c \<in> set rest. \<exists>s. i = ID c \<and> d = fst (part_001_client config afk allowed srv clients c s)"
  by (induction rest arbitrary: soloClients)
     (auto simp: part_001_clients_Cons simp del: part_001_clients.simps(2))

text \<open>With distinct ids, a client of the list is evaluated once, on a slice that holds its
  id exactly when the slice at the start of the loop did; and its id is in the slice after the
  loop exactly when it was there after its own evaluation.\<close>

lemma part_001_clients_at:
  assumes "distinct (map ID rest)" and "c \<in> set rest"
  shows "\<exists>s. (ID c \<in> set s \<longleftrightarrow> ID c \<in> set soloClients)
     \<and> (\<forall>d. (ID c, d) \<in> set (fst (part_001_clients config afk allowed srv clients rest soloClients))
            \<longleftrightarrow> d = fst (part_001_client config afk allowed srv clients c s))
     \<and> (ID c \<in> set (snd (part_001_clients config afk allowed srv clients rest soloClients))
            \<longleftrightarrow> ID c \<in> set (snd (part_001_client config afk allowed srv clients c s)))"
  using assms
proof (induction rest arbitrary: soloClients)
  case Nil
  then show ?case by simp
next
  case (Cons c' rest)
  let ?s' = "snd (part_001_client config afk allowed srv clients c' soloClients)"
  show ?case
  proof (cases "c' = c")
    case True
    with Cons.prems have notin: "ID c \<notin> ID ` set rest" by simp
    have "\<And>d. (ID c, d) \<notin> set (fst (part_001_clients config afk allowed srv clients rest ?s'))"
    proof
      fix d
      assume "(ID c, d) \<in> set (fst (part_001_clients config afk allowed srv clients rest ?s'))"
      then have "ID c \<in> set (map fst (fst (part_001_clients config afk allowed srv clients rest ?s')))"
        by force
      with notin show False by (simp add: part_001_clients_ids)
    qed
    with True part_001_clients_other [OF notin, of config afk allowed srv clients ?s']
    have "(ID c \<in> set soloClients \<longleftrightarrow> ID c \<in> set soloClients)
     \<and> (\<forall>d. (ID c, d) \<in> set (fst (part_001_clients config afk allowed srv clients (c' # rest) soloClients))
            \<longleftrightarrow> d = fst (part_001_client config afk allowed srv clients c soloClients))
     \<and> (ID c \<in> set (snd (part_001_clients config afk allowed srv clients (c' # rest) soloClients))
            \<longleftrightarrow> ID c \<in> set (snd (part_001_client config afk allowed srv clients c soloClients)))"
      by (simp add: part_001_clients_Cons del: part_001_clients.simps(2))
    then show ?thesis by blast
  next
    case False
    with Cons.prems have in_rest: "c \<in> set rest" by simp
    from Cons.prems have dist: "distinct (map ID rest)" and fresh: "ID c' \<notin> ID ` set rest"
      by simp_all
    from in_rest have "ID c \<in> ID ` set rest" by (rule imageI)
    with fresh have ne: "ID c \<noteq> ID c'" by metis
    from Cons.IH [OF dist in_rest, of ?s'] obtain s where
      s: "ID c \<in> set s \<longleftrightarrow> ID c \<in> set ?s'"
        "\<forall>d. (ID c, d) \<in> set (fst (part_001_clients config afk allowed srv clients rest ?s'))
            \<longleftrightarrow> d = fst (part_001_client config afk allowed srv clients c s)"
        "ID c \<in> set (snd (part_001_clients config afk allowed srv clients rest ?s'))
            \<longleftrightarrow> ID c \<in> set (snd (part_001_client config afk allowed srv clients c s))"
      by blast
    have "ID c \<in> set ?s' \<longleftrightarrow> ID c \<in> set soloClients"
      using ne by (simp add: part_001_client_other)
    with s ne have "(ID c \<in> set s \<longleftrightarrow> ID c \<in> set soloClients)
     \<and> (\<forall>d. (ID c, d) \<in> set (fst (part_001_clients config afk allowed srv clients (c' # rest) soloClients))
            \<longleftrightarrow> d = fst (part_001_client config afk allowed srv clients c s))
     \<and> (ID c \<in> set (snd (part_001_clients config afk allowed srv clients (c' # rest) soloClients))
            \<longleftrightarrow> ID c \<in> set (snd (part_001_client config afk allowed srv clients c s)))"
      by (simp add: part_001_clients_Cons del: part_001_clients.simps(2))
    then show ?thesis by blast
  qed
qed

subsection \<open>part_002: the nested loops\<close>

lemma isSolo_iff:
  "isSolo c xs \<longleftrightarrow> \<not> (\<exists>c2 \<in> set xs. ChannelID c2 = ChannelID c \<and> ID c2 \<noteq> ID c)"
  by (induction xs) auto

lemma processClients_outer_entry:
  "(i, d) \<in> set (processClients_outer config afk allowed srv recentJoins clients c0) \<Longrightarrow>
     d = RecentJoinGrace \<or> d = ExecFailed \<or> d = IdleTimeNotFound
     \<or> (\<exists>c \<in> set clients. i = ID c
           \<and> d = processClients_inner config afk allowed srv recentJoins clients c)"
  by (auto simp: processClients_outer_def split: if_splits idle_reply.splits)

lemma processClients_outer_pass:
  "\<not> recentJoin recentJoins (clock srv) (ChannelID c0) \<Longrightarrow> clientinfo srv (ID c0) = IdleTime t \<Longrightarrow>
     processClients_outer config afk allowed srv recentJoins clients c0 =
       map (\<lambda>c'. (ID c', processClients_inner config afk allowed srv recentJoins clients c')) clients"
  by (simp add: processClients_outer_def)

lemma processClients_outer_source:
  "(i, d) \<in> set (processClients_outer config afk allowed srv recentJoins clients c0) \<Longrightarrow>
     (i = ID c0 \<and> processClients_outer config afk allowed srv recentJoins clients c0 = [(ID c0, d)])
     \<or> (\<exists>c \<in> set clients. i = ID c
           \<and> d = processClients_inner config afk allowed srv recentJoins clients c)"
  by (auto simp: processClients_outer_def split: if_splits idle_reply.splits)

lemma processClients_inner_solo:
  assumes "\<not> recentJoin recentJoins (clock srv) (ChannelID c)"
    and "clientinfo srv (ID c) = IdleTime t" and "t > MaxIdleTimeMs config"
    and "\<not> isChannelIgnored allowed (ChannelID c)" and "ChannelID c \<noteq> afk"
  shows "processClients_inner config afk allowed srv recentJoins clients c =
     (if isSolo c clients then SoloInChannel else MoveToAfk)"
  using assms by (simp add: processClients_inner_def)

lemma processClients_inner_afk:
  "ChannelID c = afk \<Longrightarrow>
     processClients_inner config afk allowed srv recentJoins clients c \<noteq> MoveToAfk"
  by (simp add: processClients_inner_def split: idle_reply.splits)

lemma main_go_client_afk:
  "ChannelID c = afk \<Longrightarrow> main_go_client config afk allowed srv c \<noteq> MoveToAfk"
  by (simp add: main_go_client_def split: idle_reply.splits)

lemma processClients_state:
  "processClients config srv recentJoins = Fatal
   \<or> processClients config srv recentJoins = Skipped 5 recentJoins
   \<or> (\<exists>afk tr. processClients config srv recentJoins = Done afk tr recentJoins)"
  by (simp add: processClients_def split: option.splits prod.splits)

lemma forever_processClients:
  "forever (processClients config) srvs recentJoins = Running recentJoins' \<Longrightarrow>
     recentJoins' = recentJoins"
proof (induction srvs)
  case Nil
  then show ?case by simp
next
  case (Cons srv srvs)
  with processClients_state [of config srv recentJoins] show ?case by auto
qed

lemma processClients_no_recentJoin:
  "(i, RecentJoinGrace) \<notin> set (evaluations (processClients config srv Map.empty))"
proof
  assume a: "(i, RecentJoinGrace) \<in> set (evaluations (processClients config srv Map.empty))"
  have inner: "processClients_inner config afk allowed srv Map.empty clients c \<noteq> RecentJoinGrace"
    for afk allowed clients c
    by (simp add: processClients_inner_def recentJoin_def split: idle_reply.splits)
  have outer: "(i, RecentJoinGrace) \<notin> set (processClients_outer config afk allowed srv Map.empty clients c0)"
    for afk allowed clients c0
    using inner [symmetric]
    by (auto simp: processClients_outer_def recentJoin_def split: idle_reply.splits)
  from a outer show False
    by (auto simp: processClients_def split: option.splits prod.splits if_splits)
qed

lemma processClients_AllowGracePeriod:
  "processClients (config\<lparr>AllowGracePeriod := b\<rparr>) srv recentJoins =
   processClients config srv recentJoins"
proof -
  have inner: "processClients_inner (config\<lparr>AllowGracePeriod := b\<rparr>) afk allowed srv recentJoins clients =
      processClients_inner config afk allowed srv recentJoins clients" for afk allowed clients
    by (rule ext) (simp add: processClients_inner_def split: idle_reply.splits)
  have outer: "processClients_outer (config\<lparr>AllowGracePeriod := b\<rparr>) afk allowed srv recentJoins clients =
      processClients_outer config afk allowed srv recentJoins clients" for afk allowed clients
    by (rule ext) (simp add: processClients_outer_def inner split: idle_reply.splits)
  show ?thesis
    by (simp add: processClients_def scanChannels_AllowGracePeriod outer
          split: option.splits prod.splits)
qed

subsection \<open>A single loop evaluates every client once\<close>

text \<open>In main.go and in part_001 the client loop is one loop: the evaluations of a cycle are
  those of the listed clients, one each and in the order listed, and so are the moves.\<close>

lemma single_loop_evaluates_each_client_once:
  assumes "ChannelList srv = Some channels" and "ClientList srv = Some clients"
    and "scanChannels config channels (0, []) = (afk, allowed)" and "afk \<noteq> 0"
  shows "map fst (evaluations (main_go_cycle config srv u)) = map ID clients"
    and "map fst (evaluations (part_001_cycle config srv soloClients)) = map ID clients"
  by (simp_all add: main_go_cycle_Done [OF assms] part_001_cycle_Done [OF assms]
        part_001_clients_ids comp_def)

lemma moves_of_distinct_evaluations:
  "distinct (map fst tr) \<Longrightarrow> distinct (map fst (moves (Done afk tr st)))"
  by (simp add: comp_def distinct_map_filter)

lemma single_loop_moves_each_client_once:
  assumes "ChannelList srv = Some channels" and "ClientList srv = Some clients"
    and "scanChannels config channels (0, []) = (afk, allowed)" and "afk \<noteq> 0"
    and "distinct (map ID clients)"
  shows "distinct (map fst (moves (main_go_cycle config srv u)))"
    and "distinct (map fst (moves (part_001_cycle config srv soloClients)))"
proof -
  have "distinct (map fst (evaluations (main_go_cycle config srv u)))"
    and "distinct (map fst (evaluations (part_001_cycle config srv soloClients)))"
    using assms(5)
    by (simp_all only: single_loop_evaluates_each_client_once [OF assms(1-4)])
  then show "distinct (map fst (moves (main_go_cycle config srv u)))"
    and "distinct (map fst (moves (part_001_cycle config srv soloClients)))"
    by (simp_all only: main_go_cycle_Done [OF assms(1-4)] part_001_cycle_Done [OF assms(1-4)]
          evaluations.simps moves_of_distinct_evaluations)
qed

subsection \<open>main.go: a failed listing\<close>

text \<open>In main.go a cycle whose channel listing or client listing fails is fatal, whatever
  else the server answers.\<close>

lemma main_go_listing_failure_fatal:
  "ChannelList srv = None \<or> ClientList srv = None \<Longrightarrow> main_go_cycle config srv u = Fatal"
  by (cases "ChannelList srv")
     (auto simp: main_go_cycle_def split: prod.splits)

section \<open>Failed listings and the missing AFK channel\<close>

text \<open>
  Claim C6. When the channel listing of a cycle arrives and none of its channels bears the
  configured AFK name, the cycle is fatal in each of the three revisions, whatever the
  cross-cycle variable holds; so the process is terminated by such a listing in whichever
  cycle it arrives, after any number of earlier cycles, and no later cycle runs.
\<close>

theorem afk_channel_missing_is_fatal:
  assumes "ChannelList srv = Some channels"
    and "\<forall>ch \<in> set channels. ChannelName ch \<noteq> AfkChannelName config"
  shows "main_go_cycle config srv u = Fatal
       \<and> part_001_cycle config srv soloClients = Fatal
       \<and> processClients config srv recentJoins = Fatal
       \<and> forever (main_go_cycle config) (before @ srv # rest) u = Terminated
       \<and> forever (part_001_cycle config) (before @ srv # rest) soloClients = Terminated
       \<and> forever (processClients config) (before @ srv # rest) recentJoins = Terminated"
proof -
  have afk: "fst (scanChannels config channels (0, [])) = 0"
    using assms(2) by (rule scanChannels_no_afk)
  have a: "main_go_cycle config srv u' = Fatal" for u'
    using assms(1) afk
    by (cases "scanChannels config channels (0, [])") (simp add: main_go_cycle_def)
  have b: "part_001_cycle config srv s = Fatal" for s
    using assms(1) afk
    by (cases "scanChannels config channels (0, [])") (simp add: part_001_cycle_def)
  have c: "processClients config srv r = Fatal" for r
    using assms(1) afk
    by (cases "scanChannels config channels (0, [])") (simp add: processClients_def)
  show ?thesis
    using a b c by (simp add: forever_fatal)
qed

theorem afk_channel_missing_is_fatal_witness:
  "main_go_cycle scenario_config no_afk_server () = Fatal
   \<and> part_001_cycle scenario_config no_afk_server [10] = Fatal
   \<and> processClients scenario_config no_afk_server Map.empty = Fatal
   \<and> forever (main_go_cycle scenario_config) ([scenario_server] @ no_afk_server # [scenario_server]) ()
       = Terminated
   \<and> forever (part_001_cycle scenario_config) ([scenario_server] @ no_afk_server # [scenario_server]) [10]
       = Terminated
   \<and> forever (processClients scenario_config) ([scenario_server] @ no_afk_server # [scenario_server])
         Map.empty
       = Terminated"
proof -
  have 1: "ChannelList no_afk_server =
      Some [\<lparr>ChanID = 1, ChannelName = ''Lobby''\<rparr>, \<lparr>ChanID = 3, ChannelName = ''Quiet''\<rparr>]"
    by (simp add: no_afk_server_def)
  have 2: "\<forall>ch \<in> set [\<lparr>ChanID = 1, ChannelName = ''Lobby''\<rparr>, \<lparr>ChanID = 3, ChannelName = ''Quiet''\<rparr>].
      ChannelName ch \<noteq> AfkChannelName scenario_config"
    by (simp add: scenario_config_def)
  show ?thesis
    by (rule afk_channel_missing_is_fatal [OF 1 2])
qed

text \<open>
  Claim C5, as the code has it. Take a cycle whose channel listing fails, or whose channel
  listing resolves the AFK channel and whose client listing fails. In part_001 and in
  part_002 the cycle is abandoned after the error log and a sleep of five seconds: no client
  is evaluated, no move is commanded, the cross-cycle variable (\<^verbatim>\<open>soloClients\<close>,
  \<^verbatim>\<open>recentJoins\<close>) is what it was, and the main loop goes on with the next cycle. In main.go
  the cycle is fatal (\<^verbatim>\<open>log.Fatal\<close>): the process is terminated and no later cycle runs.
  (The client listing is requested only once the AFK channel is resolved.)
\<close>

theorem listing_failure_skips_cycle:
  assumes "ChannelList srv = None
     \<or> (\<exists>channels. ChannelList srv = Some channels
           \<and> fst (scanChannels config channels (0, [])) \<noteq> 0 \<and> ClientList srv = None)"
  shows "part_001_cycle config srv soloClients = Skipped 5 soloClients
       \<and> processClients config srv recentJoins = Skipped 5 recentJoins
       \<and> evaluations (part_001_cycle config srv soloClients) = []
       \<and> evaluations (processClients config srv recentJoins) = []
       \<and> forever (part_001_cycle config) (srv # rest) soloClients =
           forever (part_001_cycle config) rest soloClients
       \<and> forever (processClients config) (srv # rest) recentJoins =
           forever (processClients config) rest recentJoins
       \<and> main_go_cycle config srv u = Fatal
       \<and> forever (main_go_cycle config) (srv # rest) u = Terminated"
proof -
  have "ChannelList srv = None \<or> ClientList srv = None"
    using assms by auto
  then have m: "main_go_cycle config srv u = Fatal"
    by (rule main_go_listing_failure_fatal)
  have a: "part_001_cycle config srv soloClients = Skipped 5 soloClients"
  proof (cases "ChannelList srv")
    case None
    then show ?thesis by (simp add: part_001_cycle_def)
  next
    case (Some channels)
    with assms have "fst (scanChannels config channels (0, [])) \<noteq> 0" and "ClientList srv = None"
      by auto
    with Some show ?thesis
      by (cases "scanChannels config channels (0, [])") (simp add: part_001_cycle_def)
  qed
  have b: "processClients config srv recentJoins = Skipped 5 recentJoins"
  proof (cases "ChannelList srv")
    case None
    then show ?thesis by (simp add: processClients_def)
  next
    case (Some channels)
    with assms have "fst (scanChannels config channels (0, [])) \<noteq> 0" and "ClientList srv = None"
      by auto
    with Some show ?thesis
      by (cases "scanChannels config channels (0, [])") (simp add: processClients_def)
  qed
  show ?thesis using a b m by simp
qed

theorem listing_failure_skips_cycle_witness:
  "part_001_cycle scenario_config (scenario_server\<lparr>ClientList := None\<rparr>) [10] = Skipped 5 [10]
   \<and> processClients scenario_config (scenario_server\<lparr>ClientList := None\<rparr>) Map.empty
       = Skipped 5 Map.empty
   \<and> forever (part_001_cycle scenario_config) [scenario_server\<lparr>ClientList := None\<rparr>] [10]
       = Running [10]
   \<and> main_go_cycle scenario_config (scenario_server\<lparr>ClientList := None\<rparr>) () = Fatal
   \<and> forever (main_go_cycle scenario_config) [scenario_server\<lparr>ClientList := None\<rparr>] ()
       = Terminated"
proof -
  have "ChannelList (scenario_server\<lparr>ClientList := None\<rparr>) = Some scenario_channels
      \<and> fst (scanChannels scenario_config scenario_channels (0, [])) \<noteq> 0
      \<and> ClientList (scenario_server\<lparr>ClientList := None\<rparr>) = None"
    by (simp add: scenario_defs)
  then have "ChannelList (scenario_server\<lparr>ClientList := None\<rparr>) = None
     \<or> (\<exists>channels. ChannelList (scenario_server\<lparr>ClientList := None\<rparr>) = Some channels
           \<and> fst (scanChannels scenario_config channels (0, [])) \<noteq> 0
           \<and> ClientList (scenario_server\<lparr>ClientList := None\<rparr>) = None)"
    by blast
  from listing_failure_skips_cycle
         [OF this, where soloClients = "[10]" and recentJoins = Map.empty and rest = "[]"
            and u = "()"]
  show ?thesis by simp
qed

text \<open>
  Claim C5 as the specification words it fails on main.go, where either failed listing
  goes to \<^verbatim>\<open>log.Fatal\<close>: the process is terminated and the next cycle never runs.
\<close>

theorem main_go_listing_failure_terminates:
  "main_go_cycle scenario_config (scenario_server\<lparr>ChannelList := None\<rparr>) () = Fatal
   \<and> main_go_cycle scenario_config (scenario_server\<lparr>ClientList := None\<rparr>) () = Fatal
   \<and> forever (main_go_cycle scenario_config)
         [scenario_server\<lparr>ChannelList := None\<rparr>, scenario_server] () = Terminated
   \<and> forever (main_go_cycle scenario_config)
         [scenario_server\<lparr>ClientList := None\<rparr>, scenario_server] () = Terminated"
  by (simp add: scenario_defs main_go_cycle_def)

section \<open>The flag AllowGracePeriod\<close>

text \<open>
  Claim C10. Two runs of \<^verbatim>\<open>processClients\<close> (part_002) on the same answers of the server
  and the same \<^verbatim>\<open>recentJoins\<close>, under configurations that differ at most in
  \<^verbatim>\<open>AllowGracePeriod\<close>, end the same way: the same evaluations with the same branches,
  the same moves, the same \<^verbatim>\<open>recentJoins\<close> afterwards.
\<close>

theorem AllowGracePeriod_has_no_effect:
  "processClients (config\<lparr>AllowGracePeriod := b\<rparr>) srv recentJoins =
   processClients (config\<lparr>AllowGracePeriod := b'\<rparr>) srv recentJoins"
proof -
  have "processClients (config\<lparr>AllowGracePeriod := b\<rparr>) srv recentJoins =
      processClients config srv recentJoins"
    by (rule processClients_AllowGracePeriod)
  also have "\<dots> = processClients (config\<lparr>AllowGracePeriod := b'\<rparr>) srv recentJoins"
    by (rule processClients_AllowGracePeriod [symmetric])
  finally show ?thesis .
qed

theorem AllowGracePeriod_has_no_effect_witness:
  "processClients (scenario_config\<lparr>AllowGracePeriod := True\<rparr>) joined_server Map.empty =
   processClients (scenario_config\<lparr>AllowGracePeriod := False\<rparr>) joined_server Map.empty"
  by (rule AllowGracePeriod_has_no_effect)

section \<open>Clients alone in their channel\<close>

text \<open>
  Claim C3, as the code has it. Take a cycle whose listings arrive and resolve the AFK
  channel, with distinct client ids, and a listed client that no other listed client shares
  its channel with, idle beyond the threshold, in a channel that is neither ignored nor the
  AFK channel, and (in part_002) without a fresh entry of \<^verbatim>\<open>recentJoins\<close> for its channel.
  In part_001 the one evaluation of the client ends in the solo skip, no move is commanded
  for it, and its id is in \<^verbatim>\<open>soloClients\<close> after the cycle. In part_002 every evaluation of
  the client ends in the solo skip and no move is commanded for it, but nothing is recorded:
  part_002 has no store of solo clients, and its one cross-cycle variable, \<^verbatim>\<open>recentJoins\<close>,
  is after the cycle what it was before.
\<close>

theorem solo_idle_client_skipped_and_recorded:
  assumes lists: "ChannelList srv = Some channels" "ClientList srv = Some clients"
    and scan: "scanChannels config channels (0, []) = (afk, allowed)" "afk \<noteq> 0"
    and ids: "distinct (map ID clients)" and c: "c \<in> set clients"
    and alone: "\<forall>c2 \<in> set clients. c2 \<noteq> c \<longrightarrow> ChannelID c2 \<noteq> ChannelID c"
    and idle: "clientinfo srv (ID c) = IdleTime t" "t > MaxIdleTimeMs config"
    and not_ignored: "\<forall>ch \<in> set channels. ChanID ch = ChannelID c \<longrightarrow>
          ChannelName ch \<notin> set (IgnoredChannels config)"
    and not_afk: "ChannelID c \<noteq> afk"
    and no_join: "\<not> recentJoin recentJoins (clock srv) (ChannelID c)"
  shows "(\<forall>d. (ID c, d) \<in> set (evaluations (part_001_cycle config srv soloClients))
              \<longleftrightarrow> d = SoloInChannel)
       \<and> (\<forall>tgt. (ID c, tgt) \<notin> set (moves (part_001_cycle config srv soloClients)))
       \<and> (\<exists>soloClients'. stateAfter (part_001_cycle config srv soloClients) = Some soloClients'
             \<and> ID c \<in> set soloClients')
       \<and> (\<forall>tgt. (ID c, tgt) \<notin> set (moves (processClients config srv recentJoins)))
       \<and> (\<forall>d. (ID c, d) \<in> set (evaluations (processClients config srv recentJoins))
              \<longleftrightarrow> d = SoloInChannel)
       \<and> stateAfter (processClients config srv recentJoins) = Some recentJoins"
proof -
  have allowed: "\<not> isChannelIgnored allowed (ChannelID c)"
    using not_ignored not_ignored_iff [of config channels "ChannelID c"] scan(1) by auto
  have alone': "\<forall>c2 \<in> set clients. ChannelID c2 = ChannelID c \<longrightarrow> ID c2 = ID c"
    using alone by auto
  have ne: "clients \<noteq> []" using c by auto
  \<comment> \<open>part_001\<close>
  have client: "part_001_client config afk allowed srv clients c s =
      (SoloInChannel, s @ replicate (length clients) (ID c))" for s
    using ne by (simp add: part_001_client_scan [OF idle allowed not_afk] soloScan_alone [OF alone'])
  from part_001_clients_at [OF ids c, of soloClients config afk allowed srv clients]
  obtain s where
    s: "\<forall>d. (ID c, d) \<in> set (fst (part_001_clients config afk allowed srv clients clients soloClients))
            \<longleftrightarrow> d = fst (part_001_client config afk allowed srv clients c s)"
       "ID c \<in> set (snd (part_001_clients config afk allowed srv clients clients soloClients))
            \<longleftrightarrow> ID c \<in> set (snd (part_001_client config afk allowed srv clients c s))"
    by blast
  have p1: "\<forall>d. (ID c, d) \<in> set (evaluations (part_001_cycle config srv soloClients))
              \<longleftrightarrow> d = SoloInChannel"
    using s(1) by (simp add: part_001_cycle_Done [OF lists scan] client)
  have p2: "\<forall>tgt. (ID c, tgt) \<notin> set (moves (part_001_cycle config srv soloClients))"
    using s(1) by (simp add: part_001_cycle_Done [OF lists scan] client set_moves_Done del: moves.simps)
  have p3: "\<exists>soloClients'. stateAfter (part_001_cycle config srv soloClients) = Some soloClients'
             \<and> ID c \<in> set soloClients'"
    using s(2) ne by (simp add: part_001_cycle_Done [OF lists scan] client)
  \<comment> \<open>part_002\<close>
  have solo: "isSolo c clients" using alone' by (simp add: isSolo_iff)
  have inner: "processClients_inner config afk allowed srv recentJoins clients c = SoloInChannel"
    using solo by (simp add: processClients_inner_solo [OF no_join idle allowed not_afk])
  have p4: "(ID c, tgt) \<notin> set (moves (processClients config srv recentJoins))" for tgt
  proof
    assume "(ID c, tgt) \<in> set (moves (processClients config srv recentJoins))"
    then obtain c0 where
      "(ID c, MoveToAfk) \<in> set (processClients_outer config afk allowed srv recentJoins clients c0)"
      by (auto simp: processClients_Done [OF lists scan])
    from processClients_outer_entry [OF this] obtain c' where
      "c' \<in> set clients" "ID c = ID c'"
      "MoveToAfk = processClients_inner config afk allowed srv recentJoins clients c'"
      by auto
    moreover from this have "c' = c" using same_ID_same_client [OF ids c] by simp
    ultimately show False using inner by simp
  qed
  have pass: "processClients_outer config afk allowed srv recentJoins clients c =
      map (\<lambda>c'. (ID c', processClients_inner config afk allowed srv recentJoins clients c'))
        clients"
    by (rule processClients_outer_pass [OF no_join idle(1)])
  have p5: "(ID c, d) \<in> set (evaluations (processClients config srv recentJoins))
      \<longleftrightarrow> d = SoloInChannel" for d
  proof
    assume "(ID c, d) \<in> set (evaluations (processClients config srv recentJoins))"
    then obtain c0 where c0: "c0 \<in> set clients"
      "(ID c, d) \<in> set (processClients_outer config afk allowed srv recentJoins clients c0)"
      by (auto simp: processClients_Done [OF lists scan])
    from processClients_outer_source [OF c0(2)] show "d = SoloInChannel"
    proof
      assume "ID c = ID c0 \<and> processClients_outer config afk allowed srv recentJoins clients c0
          = [(ID c0, d)]"
      then have same: "ID c0 = ID c"
        and single: "processClients_outer config afk allowed srv recentJoins clients c0 = [(ID c0, d)]"
        by simp_all
      from same c0(1) have "c0 = c" using same_ID_same_client [OF ids c] by simp
      with single pass have "map (\<lambda>c'. (ID c',
          processClients_inner config afk allowed srv recentJoins clients c')) clients = [(ID c, d)]"
        by simp
      then have "clients = [c']" if "c' \<in> set clients" for c'
        using that by (cases clients) auto
      from this [OF c] have "clients = [c]" .
      with \<open>map _ clients = [(ID c, d)]\<close> inner show ?thesis by simp
    next
      assume "\<exists>c' \<in> set clients. ID c = ID c'
          \<and> d = processClients_inner config afk allowed srv recentJoins clients c'"
      then obtain c' where "c' \<in> set clients" "ID c = ID c'"
        "d = processClients_inner config afk allowed srv recentJoins clients c'"
        by blast
      moreover from this have "c' = c" using same_ID_same_client [OF ids c] by simp
      ultimately show ?thesis using inner by simp
    qed
  next
    assume "d = SoloInChannel"
    with inner c have "(ID c, d) \<in>
        set (processClients_outer config afk allowed srv recentJoins clients c)"
      by (force simp: pass)
    with c show "(ID c, d) \<in> set (evaluations (processClients config srv recentJoins))"
      by (auto simp: processClients_Done [OF lists scan])
  qed
  have p6: "stateAfter (processClients config srv recentJoins) = Some recentJoins"
    by (simp add: processClients_Done [OF lists scan])
  from p1 p2 p3 p4 p5 p6 show ?thesis by blast
qed

theorem solo_idle_client_skipped_and_recorded_witness:
  "(\<forall>d. (ID \<lparr>ID = 10, Nickname = ''A'', ChannelID = 1\<rparr>, d)
            \<in> set (evaluations (part_001_cycle scenario_config alone_server []))
          \<longleftrightarrow> d = SoloInChannel)
   \<and> (\<forall>tgt. (ID \<lparr>ID = 10, Nickname = ''A'', ChannelID = 1\<rparr>, tgt)
            \<notin> set (moves (part_001_cycle scenario_config alone_server [])))
   \<and> (\<exists>soloClients'. stateAfter (part_001_cycle scenario_config alone_server []) = Some soloClients'
         \<and> ID \<lparr>ID = 10, Nickname = ''A'', ChannelID = 1\<rparr> \<in> set soloClients')
   \<and> (\<forall>tgt. (ID \<lparr>ID = 10, Nickname = ''A'', ChannelID = 1\<rparr>, tgt)
            \<notin> set (moves (processClients scenario_config alone_server Map.empty)))
   \<and> (\<forall>d. (ID \<lparr>ID = 10, Nickname = ''A'', ChannelID = 1\<rparr>, d)
            \<in> set (evaluations (processClients scenario_config alone_server Map.empty))
          \<longleftrightarrow> d = SoloInChannel)
   \<and> stateAfter (processClients scenario_config alone_server Map.empty) = Some Map.empty"
proof -
  let ?c = "\<lparr>ID = 10, Nickname = ''A'', ChannelID = 1\<rparr>"
  have 1: "ChannelList alone_server = Some scenario_channels"
    and 2: "ClientList alone_server = Some alone_clients"
    by (simp_all add: alone_server_def)
  have 3: "scanChannels scenario_config scenario_channels (0, []) = (2, [3])"
    by (simp add: scenario_config_def scenario_channels_def)
  have 4: "(2::int) \<noteq> 0" by simp
  have 5: "distinct (map ID alone_clients)" and 6: "?c \<in> set alone_clients"
    and 7: "\<forall>c2 \<in> set alone_clients. c2 \<noteq> ?c \<longrightarrow> ChannelID c2 \<noteq> ChannelID ?c"
    by (simp_all add: alone_clients_def)
  have 8: "clientinfo alone_server (ID ?c) = IdleTime 120000"
    by (simp add: alone_server_def scenario_idle_def)
  have 9: "120000 > MaxIdleTimeMs scenario_config"
    by (simp add: scenario_config_def)
  have 10: "\<forall>ch \<in> set scenario_channels. ChanID ch = ChannelID ?c \<longrightarrow>
      ChannelName ch \<notin> set (IgnoredChannels scenario_config)"
    by (simp add: scenario_config_def scenario_channels_def)
  have 11: "ChannelID ?c \<noteq> 2" by simp
  have 12: "\<not> recentJoin Map.empty (clock alone_server) (ChannelID ?c)"
    by (simp add: recentJoin_def)
  show ?thesis
    by (rule solo_idle_client_skipped_and_recorded [OF 1 2 3 4 5 6 7 8 9 10 11 12])
qed

text \<open>
  Claim C3 as the specification words it fails on part_002. Client 10 is idle and alone in
  its channel and is skipped as solo, in both passes of the outer loop; after the cycle
  nothing is held about it: \<^verbatim>\<open>recentJoins\<close>, the only variable that outlives the cycle, is
  as empty as before.
\<close>

theorem part_002_records_no_solo_client:
  "evaluations (processClients scenario_config alone_server Map.empty) =
     [(10, SoloInChannel), (11, NotIdle), (10, SoloInChannel), (11, NotIdle)]
   \<and> moves (processClients scenario_config alone_server Map.empty) = []
   \<and> processClients scenario_config alone_server Map.empty =
       Done 2 [(10, SoloInChannel), (11, NotIdle), (10, SoloInChannel), (11, NotIdle)] Map.empty"
  by (simp add: scenario_defs processClients_def processClients_outer_def
        processClients_inner_def recentJoin_def)

section \<open>The cycle after a solo client got company\<close>

text \<open>
  Claim C1, as the code has it. Take a cycle whose listings arrive and resolve the AFK
  channel, with distinct client ids, and a listed client that shares its channel with another
  listed client, idle beyond the threshold, in a channel that is neither ignored nor the AFK
  channel. In part_001, which has no flag and where the grace is unconditional: if the
  client's id is in \<^verbatim>\<open>soloClients\<close> when the cycle starts, its one evaluation ends in the grace
  skip and no move is commanded for it. In part_002, which has the flag and keeps no record of
  solo clients: if no entry of \<^verbatim>\<open>recentJoins\<close> is fresh for the client's channel, the move of
  the client to the AFK channel is commanded, whatever the value of \<^verbatim>\<open>AllowGracePeriod\<close>.
\<close>

theorem joined_client_grace_in_part_001_moved_in_part_002:
  assumes lists: "ChannelList srv = Some channels" "ClientList srv = Some clients"
    and scan: "scanChannels config channels (0, []) = (afk, allowed)" "afk \<noteq> 0"
    and ids: "distinct (map ID clients)" and c: "c \<in> set clients"
    and joined: "\<exists>c2 \<in> set clients. c2 \<noteq> c \<and> ChannelID c2 = ChannelID c"
    and idle: "clientinfo srv (ID c) = IdleTime t" "t > MaxIdleTimeMs config"
    and not_ignored: "\<forall>ch \<in> set channels. ChanID ch = ChannelID c \<longrightarrow>
          ChannelName ch \<notin> set (IgnoredChannels config)"
    and not_afk: "ChannelID c \<noteq> afk"
    and no_join: "\<not> recentJoin recentJoins (clock srv) (ChannelID c)"
    and recorded: "ID c \<in> set soloClients"
  shows "(\<forall>d. (ID c, d) \<in> set (evaluations (part_001_cycle config srv soloClients))
              \<longleftrightarrow> d = InGracePeriod)
       \<and> (\<forall>tgt. (ID c, tgt) \<notin> set (moves (part_001_cycle config srv soloClients)))
       \<and> (\<forall>b. (ID c, afk) \<in> set (moves (processClients (config\<lparr>AllowGracePeriod := b\<rparr>) srv
                                         recentJoins)))"
proof -
  have allowed: "\<not> isChannelIgnored allowed (ChannelID c)"
    using not_ignored not_ignored_iff [of config channels "ChannelID c"] scan(1) by auto
  from joined obtain c2 where c2: "c2 \<in> set clients" "c2 \<noteq> c" "ChannelID c2 = ChannelID c"
    by blast
  with same_ID_same_client [OF ids c, of c2] have "ID c2 \<noteq> ID c" by auto
  with c2 have joined': "\<exists>c2 \<in> set clients. ChannelID c2 = ChannelID c \<and> ID c2 \<noteq> ID c"
    by blast
  \<comment> \<open>part_001\<close>
  have client: "fst (part_001_client config afk allowed srv clients c s) = InGracePeriod"
    if "ID c \<in> set s" for s
    using soloScan_recorded [OF joined' that, of False False]
    by (simp add: part_001_client_scan [OF idle allowed not_afk])
  from part_001_clients_at [OF ids c, of soloClients config afk allowed srv clients]
  obtain s where
    s: "ID c \<in> set s \<longleftrightarrow> ID c \<in> set soloClients"
       "\<forall>d. (ID c, d) \<in> set (fst (part_001_clients config afk allowed srv clients clients soloClients))
            \<longleftrightarrow> d = fst (part_001_client config afk allowed srv clients c s)"
    by blast
  from s(1) recorded have "ID c \<in> set s" by simp
  from client [OF this] s(2)
  have tr: "\<forall>d. (ID c, d) \<in> set (fst (part_001_clients config afk allowed srv clients clients soloClients))
            \<longleftrightarrow> d = InGracePeriod"
    by simp
  have p1: "\<forall>d. (ID c, d) \<in> set (evaluations (part_001_cycle config srv soloClients))
              \<longleftrightarrow> d = InGracePeriod"
    using tr by (simp add: part_001_cycle_Done [OF lists scan])
  have p2: "\<forall>tgt. (ID c, tgt) \<notin> set (moves (part_001_cycle config srv soloClients))"
    using tr by (simp add: part_001_cycle_Done [OF lists scan] set_moves_Done del: moves.simps)
  \<comment> \<open>part_002\<close>
  have inner: "processClients_inner config afk allowed srv recentJoins clients c = MoveToAfk"
    using joined' by (simp add: processClients_inner_solo [OF no_join idle allowed not_afk] isSolo_iff)
  have "(ID c, MoveToAfk) \<in> set (processClients_outer config afk allowed srv recentJoins clients c)"
    using c inner by (force simp: processClients_outer_pass [OF no_join idle(1)])
  with c have "(ID c, afk) \<in> set (moves (processClients config srv recentJoins))"
    by (simp add: processClients_Done [OF lists scan] set_moves_Done del: moves.simps) blast
  then have p3: "\<forall>b. (ID c, afk) \<in> set (moves (processClients (config\<lparr>AllowGracePeriod := b\<rparr>) srv
                                         recentJoins))"
    by (simp add: processClients_AllowGracePeriod)
  from p1 p2 p3 show ?thesis by blast
qed

theorem joined_client_grace_in_part_001_moved_in_part_002_witness:
  "(\<forall>d. (ID \<lparr>ID = 10, Nickname = ''A'', ChannelID = 1\<rparr>, d)
            \<in> set (evaluations (part_001_cycle scenario_config joined_server [10, 10]))
          \<longleftrightarrow> d = InGracePeriod)
   \<and> (\<forall>tgt. (ID \<lparr>ID = 10, Nickname = ''A'', ChannelID = 1\<rparr>, tgt)
            \<notin> set (moves (part_001_cycle scenario_config joined_server [10, 10])))
   \<and> (\<forall>b. (ID \<lparr>ID = 10, Nickname = ''A'', ChannelID = 1\<rparr>, 2)
            \<in> set (moves (processClients (scenario_config\<lparr>AllowGracePeriod := b\<rparr>) joined_server
                            Map.empty)))"
proof -
  let ?c = "\<lparr>ID = 10, Nickname = ''A'', ChannelID = 1\<rparr>"
  have 1: "ChannelList joined_server = Some scenario_channels"
    and 2: "ClientList joined_server = Some joined_clients"
    by (simp_all add: joined_server_def)
  have 3: "scanChannels scenario_config scenario_channels (0, []) = (2, [3])"
    by (simp add: scenario_config_def scenario_channels_def)
  have 4: "(2::int) \<noteq> 0" by simp
  have 5: "distinct (map ID joined_clients)" and 6: "?c \<in> set joined_clients"
    and 7: "\<exists>c2 \<in> set joined_clients. c2 \<noteq> ?c \<and> ChannelID c2 = ChannelID ?c"
    by (simp_all add: joined_clients_def)
  have 8: "clientinfo joined_server (ID ?c) = IdleTime 120000"
    by (simp add: joined_server_def scenario_idle_def)
  have 9: "120000 > MaxIdleTimeMs scenario_config"
    by (simp add: scenario_config_def)
  have 10: "\<forall>ch \<in> set scenario_channels. ChanID ch = ChannelID ?c \<longrightarrow>
      ChannelName ch \<notin> set (IgnoredChannels scenario_config)"
    by (simp add: scenario_config_def scenario_channels_def)
  have 11: "ChannelID ?c \<noteq> 2" by simp
  have 12: "\<not> recentJoin Map.empty (clock joined_server) (ChannelID ?c)"
    by (simp add: recentJoin_def)
  have 13: "ID ?c \<in> set [10, 10]" by simp
  show ?thesis
    by (rule joined_client_grace_in_part_001_moved_in_part_002
              [OF 1 2 3 4 5 6 7 8 9 10 11 12 13])
qed

text \<open>
  Claim C1 as the specification words it fails on part_002, the only revision that has the
  flag. With \<^verbatim>\<open>AllowGracePeriod\<close> set: in a first cycle client 10 is idle and alone in its
  channel, and is skipped as solo; nothing is recorded; in the next cycle client 11 has
  joined the channel and client 10, still idle, is moved to the AFK channel (the command is
  sent once per pass of the outer loop).
\<close>

theorem part_002_moves_joined_client_despite_flag:
  "AllowGracePeriod scenario_config
   \<and> evaluations (processClients scenario_config alone_server Map.empty) =
       [(10, SoloInChannel), (11, NotIdle), (10, SoloInChannel), (11, NotIdle)]
   \<and> stateAfter (processClients scenario_config alone_server Map.empty) = Some Map.empty
   \<and> moves (processClients scenario_config joined_server Map.empty) = [(10, 2), (10, 2)]"
  by (simp add: scenario_defs processClients_def processClients_outer_def
        processClients_inner_def recentJoin_def)

section \<open>Clients in the AFK channel\<close>

text \<open>
  Claim C8. In a cycle with distinct client ids, no move is commanded for a listed client
  whose channel is the AFK channel the cycle resolved, whatever its idle time: in main.go, in
  part_001 and in part_002. So once a move has succeeded and the client is listed in the AFK
  channel, evaluating the snapshot again commands no further move for it.
\<close>

theorem client_in_afk_channel_never_moved:
  assumes lists: "ChannelList srv = Some channels" "ClientList srv = Some clients"
    and scan: "scanChannels config channels (0, []) = (afk, allowed)"
    and ids: "distinct (map ID clients)" and c: "c \<in> set clients"
    and in_afk: "ChannelID c = afk"
  shows "(\<forall>tgt. (ID c, tgt) \<notin> set (moves (main_go_cycle config srv u)))
       \<and> (\<forall>tgt. (ID c, tgt) \<notin> set (moves (part_001_cycle config srv soloClients)))
       \<and> (\<forall>tgt. (ID c, tgt) \<notin> set (moves (processClients config srv recentJoins)))"
proof (cases "afk = 0")
  case True
  with cycle_afk_0 [OF lists(1), of config allowed] scan show ?thesis by simp
next
  case False
  note scan' = scan False
  have p0: "(ID c, tgt) \<notin> set (moves (main_go_cycle config srv u))" for tgt
  proof
    assume "(ID c, tgt) \<in> set (moves (main_go_cycle config srv u))"
    then obtain c' where "c' \<in> set clients" "ID c' = ID c"
      "main_go_client config afk allowed srv c' = MoveToAfk"
      by (auto simp: main_go_cycle_Done [OF lists scan'])
    moreover from this have "c' = c" using same_ID_same_client [OF ids c] by simp
    ultimately show False using main_go_client_afk [OF in_afk] by simp
  qed
  have p1: "(ID c, tgt) \<notin> set (moves (part_001_cycle config srv soloClients))" for tgt
  proof
    assume "(ID c, tgt) \<in> set (moves (part_001_cycle config srv soloClients))"
    then have "(ID c, MoveToAfk) \<in>
        set (fst (part_001_clients config afk allowed srv clients clients soloClients))"
      by (simp add: part_001_cycle_Done [OF lists scan'] set_moves_Done del: moves.simps)
    from part_001_clients_entry [OF this] obtain c' s where "c' \<in> set clients" "ID c = ID c'"
      "MoveToAfk = fst (part_001_client config afk allowed srv clients c' s)"
      by blast
    moreover from this have "c' = c" using same_ID_same_client [OF ids c] by simp
    ultimately show False using part_001_client_afk [OF in_afk] by metis
  qed
  have p2: "(ID c, tgt) \<notin> set (moves (processClients config srv recentJoins))" for tgt
  proof
    assume "(ID c, tgt) \<in> set (moves (processClients config srv recentJoins))"
    then obtain c0 where
      "(ID c, MoveToAfk) \<in> set (processClients_outer config afk allowed srv recentJoins clients c0)"
      by (auto simp: processClients_Done [OF lists scan'])
    from processClients_outer_entry [OF this] obtain c' where
      "c' \<in> set clients" "ID c = ID c'"
      "MoveToAfk = processClients_inner config afk allowed srv recentJoins clients c'"
      by auto
    moreover from this have "c' = c" using same_ID_same_client [OF ids c] by simp
    ultimately show False using processClients_inner_afk [OF in_afk] by metis
  qed
  from p0 p1 p2 show ?thesis by blast
qed

theorem client_in_afk_channel_never_moved_witness:
  "(\<forall>tgt. (ID \<lparr>ID = 10, Nickname = ''A'', ChannelID = 2\<rparr>, tgt)
            \<notin> set (moves (main_go_cycle scenario_config moved_server ())))
   \<and> (\<forall>tgt. (ID \<lparr>ID = 10, Nickname = ''A'', ChannelID = 2\<rparr>, tgt)
            \<notin> set (moves (part_001_cycle scenario_config moved_server [])))
   \<and> (\<forall>tgt. (ID \<lparr>ID = 10, Nickname = ''A'', ChannelID = 2\<rparr>, tgt)
            \<notin> set (moves (processClients scenario_config moved_server Map.empty)))"
proof -
  let ?c = "\<lparr>ID = 10, Nickname = ''A'', ChannelID = 2\<rparr>"
  have 1: "ChannelList moved_server = Some scenario_channels"
    and 2: "ClientList moved_server = Some moved_clients"
    by (simp_all add: moved_server_def)
  have 3: "scanChannels scenario_config scenario_channels (0, []) = (2, [3])"
    by (simp add: scenario_config_def scenario_channels_def)
  have 4: "distinct (map ID moved_clients)" and 5: "?c \<in> set moved_clients"
    by (simp_all add: moved_clients_def)
  have 6: "ChannelID ?c = 2" by simp
  show ?thesis
    by (rule client_in_afk_channel_never_moved [OF 1 2 3 4 5 6])
qed

section \<open>The map recentJoins\<close>

text \<open>
  Claim C7. \<^verbatim>\<open>processClients\<close> hands \<^verbatim>\<open>recentJoins\<close> on as it received it, and the map is
  empty when the program starts. So after any number of cycles of part_002 the map is empty,
  the next cycle leaves it empty, and no evaluation of the next cycle, whatever the server
  answers, ends in the recent-join skip.
\<close>

theorem recentJoins_never_written:
  assumes "forever (processClients config) srvs Map.empty = Running recentJoins"
  shows "recentJoins = Map.empty
       \<and> (\<forall>srv. stateAfter (processClients config srv recentJoins) = None
               \<or> stateAfter (processClients config srv recentJoins) = Some Map.empty)
       \<and> (\<forall>srv i. (i, RecentJoinGrace) \<notin> set (evaluations (processClients config srv recentJoins)))"
proof -
  from assms have e: "recentJoins = Map.empty" by (rule forever_processClients)
  have "stateAfter (processClients config srv Map.empty) = None
      \<or> stateAfter (processClients config srv Map.empty) = Some Map.empty" for srv
    using processClients_state [of config srv Map.empty] by auto
  with e show ?thesis by (simp add: processClients_no_recentJoin)
qed

theorem recentJoins_never_written_witness:
  "(Map.empty :: int \<rightharpoonup> int) = Map.empty
   \<and> (\<forall>srv. stateAfter (processClients scenario_config srv Map.empty) = None
           \<or> stateAfter (processClients scenario_config srv Map.empty) = Some Map.empty)
   \<and> (\<forall>srv i. (i, RecentJoinGrace)
           \<notin> set (evaluations (processClients scenario_config srv Map.empty)))"
proof -
  have "forever (processClients scenario_config) [alone_server, joined_server] Map.empty
      = Running Map.empty"
    by (simp add: scenario_defs processClients_def)
  then show ?thesis
    by (rule recentJoins_never_written)
qed

section \<open>Where the code departs from the specification\<close>

text \<open>
  Claim C2, evaluated. On the scenario of the specification, from empty cross-cycle state,
  main.go commands the one move of client 10 to channel 2. part_001 commands none: client 10
  is listed before client 11, so its scan appends its id to \<^verbatim>\<open>soloClients\<close> when it passes
  client 10 itself, finds the id again when it reaches client 11, and takes that for a
  client that was solo in an earlier cycle. part_002 commands the move three times, once per
  pass of the outer loop.
\<close>

theorem scenario_moves_by_revision:
  "moves (main_go_cycle scenario_config scenario_server ()) = [(10, 2)]
   \<and> part_001_cycle scenario_config scenario_server [] =
       Done 2 [(10, InGracePeriod), (11, NotIdle), (12, InAllowedChannel)] []
   \<and> moves (part_001_cycle scenario_config scenario_server []) = []
   \<and> moves (processClients scenario_config scenario_server Map.empty) =
       [(10, 2), (10, 2), (10, 2)]"
  by (simp add: scenario_defs main_go_cycle_def main_go_client_def part_001_cycle_def
        part_001_client_def processClients_def processClients_outer_def
        processClients_inner_def recentJoin_def)

text \<open>
  Claim C4, evaluated. With clients 10 and 12 idle in one channel, part_002 evaluates each of
  them twice and commands each move twice, the second move of client 10 after the first of
  client 12. (The single loops of main.go and part_001 evaluate every client once, see
  \<open>single_loop_evaluates_each_client_once\<close>.)
\<close>

theorem part_002_evaluates_clients_repeatedly:
  "map fst (evaluations (processClients scenario_config both_idle_server Map.empty)) =
     [10, 12, 10, 12]
   \<and> moves (processClients scenario_config both_idle_server Map.empty) =
       [(10, 2), (12, 2), (10, 2), (12, 2)]"
  by (simp add: scenario_defs processClients_def processClients_outer_def
        processClients_inner_def recentJoin_def)

text \<open>
  Claim C9, evaluated. In part_001, a cycle with client 10 idle and alone among two listed
  clients leaves its id twice in \<^verbatim>\<open>soloClients\<close>. In the next cycle, in which client 11 has
  joined, the id is appended once more and cut out once: client 10 is granted the grace skip
  and its id is still in the slice, twice.
\<close>

theorem soloClients_keeps_duplicates:
  "part_001_cycle scenario_config alone_server [] =
     Done 2 [(10, SoloInChannel), (11, NotIdle)] [10, 10]
   \<and> part_001_cycle scenario_config joined_server [10, 10] =
       Done 2 [(10, InGracePeriod), (11, NotIdle)] [10, 10]
   \<and> forever (part_001_cycle scenario_config) [alone_server, joined_server] [] =
       Running [10, 10]"
  by (simp add: scenario_defs part_001_cycle_def part_001_client_def)

end
